theory Spec2Isabelle
  imports Main "HOL-Library.Multiset" "HOL-Library.Stream"
begin

section \<open>Cards: suits, values and the card model\<close>

text \<open>
  The module \<^verbatim>\<open>gamble/models/cards.py\<close> keeps suits and values as attribute bags
  (\<^verbatim>\<open>SimpleNamespace\<close>). Two bags are equal when all their attributes are equal, and
  no two suits (or values) agree on all attributes, so each bag is a constructor of a
  datatype and \<^verbatim>\<open>==\<close> on bags is equality of constructors. Only the attributes the
  operations read are modelled: \<^verbatim>\<open>char\<close> and \<^verbatim>\<open>value\<close>.

  Names follow the source. Where a name of the source is taken in HOL it is changed:
  the attributes \<^verbatim>\<open>value\<close> and \<^verbatim>\<open>suit\<close> of a card are \<open>card_value\<close> and \<open>card_suit\<close>,
  the attributes \<^verbatim>\<open>cards\<close> of a hand and of a deck are \<open>hand_cards\<close> and \<open>deck_cards\<close>,
  \<^verbatim>\<open>_cards\<close> is \<open>hand_given\<close>, \<^verbatim>\<open>size\<close> is \<open>hand_size\<close>, \<^verbatim>\<open>_vals\<close> is \<open>vals\<close>, the
  parameter \<^verbatim>\<open>times\<close> is \<open>ntimes\<close>, and a class method \<^verbatim>\<open>C.m\<close> is \<open>C_m\<close>
  (\<^verbatim>\<open>__init__\<close> is \<open>C_init\<close>, \<^verbatim>\<open>__lt__\<close> is \<open>Card_lt\<close>).
\<close>

datatype Suit = SPADES | CLUBS | DIAMONDS | HEARTS

datatype Value = ACE | TWO | THREE | FOUR | FIVE | SIX | SEVEN | EIGHT | NINE | TEN
  | JACK | QUEEN | KING

datatype Rank = STRAIGHT_FLUSH | FOUR_OF_A_KIND | FULL_HOUSE | FLUSH | STRAIGHT
  | THREE_OF_A_KIND | TWO_PAIR | PAIR | HIGH_CARD

datatype error = InvalidCard string | IndexError | ValueError

fun suit_char :: "Suit \<Rightarrow> char" where
  "suit_char SPADES = CHR ''S''"
| "suit_char CLUBS = CHR ''C''"
| "suit_char DIAMONDS = CHR ''D''"
| "suit_char HEARTS = CHR ''H''"

fun suit_value :: "Suit \<Rightarrow> int" where
  "suit_value SPADES = 0"
| "suit_value CLUBS = 1"
| "suit_value DIAMONDS = 2"
| "suit_value HEARTS = 3"

fun value_char :: "Value \<Rightarrow> char" where
  "value_char ACE = CHR ''A''"
| "value_char TWO = CHR ''2''"
| "value_char THREE = CHR ''3''"
| "value_char FOUR = CHR ''4''"
| "value_char FIVE = CHR ''5''"
| "value_char SIX = CHR ''6''"
| "value_char SEVEN = CHR ''7''"
| "value_char EIGHT = CHR ''8''"
| "value_char NINE = CHR ''9''"
| "value_char TEN = CHR ''T''"
| "value_char JACK = CHR ''J''"
| "value_char QUEEN = CHR ''Q''"
| "value_char KING = CHR ''K''"

fun value_value :: "Value \<Rightarrow> int" where
  "value_value ACE = 1"
| "value_value TWO = 2"
| "value_value THREE = 3"
| "value_value FOUR = 4"
| "value_value FIVE = 5"
| "value_value SIX = 6"
| "value_value SEVEN = 7"
| "value_value EIGHT = 8"
| "value_value NINE = 9"
| "value_value TEN = 10"
| "value_value JACK = 11"
| "value_value QUEEN = 12"
| "value_value KING = 13"

text \<open>
  \<^verbatim>\<open>Suits.all()\<close> and \<^verbatim>\<open>Values.all()\<close> collect the class attributes and sort them by
  their \<^verbatim>\<open>value\<close> attribute. The attribute names come from \<^verbatim>\<open>dir(cls)\<close>, in
  alphabetical order; the sort is stable.
\<close>

definition Suits_dir :: "Suit list" where
  "Suits_dir = [CLUBS, DIAMONDS, HEARTS, SPADES]"

definition Values_dir :: "Value list" where
  "Values_dir = [ACE, EIGHT, FIVE, FOUR, JACK, KING, NINE, QUEEN, SEVEN, SIX, TEN, THREE, TWO]"

definition Suits_all :: "Suit list" where
  "Suits_all = sort_key suit_value Suits_dir"

definition Values_all :: "Value list" where
  "Values_all = sort_key value_value Values_dir"

text \<open>
  \<^verbatim>\<open>dict()\<close> is the comprehension \<^verbatim>\<open>{x.char: x for x in cls.all()}\<close>: the entries are
  stored from left to right, a later one replacing an earlier one with the same key.
\<close>

definition Suits_dict :: "char \<rightharpoonup> Suit" where
  "Suits_dict = fold (\<lambda>x m. m(suit_char x \<mapsto> x)) Suits_all Map.empty"

definition Values_dict :: "char \<rightharpoonup> Value" where
  "Values_dict = fold (\<lambda>x m. m(value_char x \<mapsto> x)) Values_all Map.empty"

record Card =
  card_value :: Value
  card_suit :: Suit

text \<open>
  Text is a list of 8-bit characters, and \<^verbatim>\<open>str.upper\<close> is modelled on it as the
  upper-casing of the letters \<^verbatim>\<open>a\<close> to \<^verbatim>\<open>z\<close>; every other character is left as it
  is.
\<close>

definition upper_char :: "char \<Rightarrow> char" where
  "upper_char c =
     (let n = (of_char c :: nat) in if 97 \<le> n \<and> n \<le> 122 then char_of (n - 32) else c)"

definition upper :: "string \<Rightarrow> string" where
  "upper text = map upper_char text"

definition Card_get :: "string \<Rightarrow> error + Card" where
  "Card_get text =
     (if \<not> length text = 2 then Inl (InvalidCard ''Too many characters for a card!'')
      else
        let value_char' = upper text ! 0; suit_char' = upper text ! 1 in
        if value_char' \<notin> dom Values_dict then Inl (InvalidCard ''Invalid value for card!'')
        else if suit_char' \<notin> dom Suits_dict then Inl (InvalidCard ''Invalid suit for card!'')
        else Inr \<lparr>card_value = the (Values_dict value_char'),
                  card_suit = the (Suits_dict suit_char')\<rparr>)"

text \<open>
  The display form of the claims about parsing: the format of \<^verbatim>\<open>__str__\<close>, with the
  suit's letter \<^verbatim>\<open>char\<close> in the place of its glyph \<^verbatim>\<open>symbol\<close>.
\<close>

definition letter_code :: "Card \<Rightarrow> string" where
  "letter_code c = [value_char (card_value c), suit_char (card_suit c)]"

subsection \<open>Comparison of cards\<close>

definition Card_lt :: "Card \<Rightarrow> Card \<Rightarrow> bool" where
  "Card_lt self other \<longleftrightarrow> value_value (card_value self) < value_value (card_value other)"

definition Card_gt :: "Card \<Rightarrow> Card \<Rightarrow> bool" where
  "Card_gt self other \<longleftrightarrow> value_value (card_value self) > value_value (card_value other)"

definition Card_eq :: "Card \<Rightarrow> Card \<Rightarrow> bool" where
  "Card_eq self other \<longleftrightarrow> card_suit self = card_suit other \<and> card_value self = card_value other"

definition Card_le :: "Card \<Rightarrow> Card \<Rightarrow> bool" where
  "Card_le self other \<longleftrightarrow> Card_lt self other \<or> Card_eq self other"

definition Card_ge :: "Card \<Rightarrow> Card \<Rightarrow> bool" where
  "Card_ge self other \<longleftrightarrow> Card_gt self other \<or> Card_eq self other"

section \<open>Hands\<close>

text \<open>An exception that leaves a property or a method is the \<open>Inl\<close> of a sum.\<close>

definition bind_err :: "error + 'a \<Rightarrow> ('a \<Rightarrow> error + 'b) \<Rightarrow> error + 'b" where
  "bind_err r f = (case r of Inl e \<Rightarrow> Inl e | Inr x \<Rightarrow> f x)"

text \<open>
  \<^verbatim>\<open>Counter(xs)\<close> counts the elements of a list; as a dictionary it keeps its keys in
  the order of their first occurrence.
\<close>

fun counter_add :: "'k \<Rightarrow> ('k \<times> int) list \<Rightarrow> ('k \<times> int) list" where
  "counter_add k [] = [(k, 1)]"
| "counter_add k ((k', n) # kvs) =
     (if k = k' then (k', n + 1) # kvs else (k', n) # counter_add k kvs)"

definition Counter :: "'k list \<Rightarrow> ('k \<times> int) list" where
  "Counter xs = fold counter_add xs []"

text \<open>
  A Python \<^verbatim>\<open>set\<close> built from a list is kept as the list without its duplicates; the
  operations applied to it (\<^verbatim>\<open>max\<close>, \<^verbatim>\<open>min\<close>, \<^verbatim>\<open>len\<close>) do not depend on the order.
  \<^verbatim>\<open>max\<close> and \<^verbatim>\<open>min\<close> of an empty collection raise \<^verbatim>\<open>ValueError\<close>.
\<close>

definition py_set :: "'a list \<Rightarrow> 'a list" where
  "py_set xs = remdups xs"

definition py_max :: "int list \<Rightarrow> error + int" where
  "py_max xs = (case xs of [] \<Rightarrow> Inl ValueError | x # ys \<Rightarrow> Inr (fold max ys x))"

definition py_min :: "int list \<Rightarrow> error + int" where
  "py_min xs = (case xs of [] \<Rightarrow> Inl ValueError | x # ys \<Rightarrow> Inr (fold min ys x))"

record Hand =
  hand_given :: "Card list"
  hand_cards :: "Card list"
  hand_size :: int
  value_counts :: "(int \<times> int) list"
  suit_counts :: "(int \<times> int) list"

text \<open>
  The constructor; \<open>hand_given\<close> is the attribute \<^verbatim>\<open>_cards\<close>. \<^verbatim>\<open>sorted\<close> compares
  cards with \<^verbatim>\<open>__lt__\<close> only and is stable: it is the stable sort by value strength.
\<close>

definition Hand_init :: "Card list \<Rightarrow> Hand" where
  "Hand_init cards =
     (let sorted_cards = sort_key (\<lambda>x. value_value (card_value x)) cards in
      \<lparr>hand_given = cards,
       hand_cards = sorted_cards,
       hand_size = int (length sorted_cards),
       value_counts = Counter (map (\<lambda>x. value_value (card_value x)) sorted_cards),
       suit_counts = Counter (map (\<lambda>x. suit_value (card_suit x)) sorted_cards)\<rparr>)"

definition vals :: "Hand \<Rightarrow> int list" where
  "vals self = rev (sort (map snd (value_counts self)))"

definition is_four_of_a_kind :: "Hand \<Rightarrow> error + bool" where
  "is_four_of_a_kind self = (case vals self of [] \<Rightarrow> Inl IndexError | v # _ \<Rightarrow> Inr (v = 4))"

definition is_full_house :: "Hand \<Rightarrow> bool" where
  "is_full_house self \<longleftrightarrow> take 2 (vals self) = [3, 2]"

definition is_flush :: "Hand \<Rightarrow> bool" where
  "is_flush self \<longleftrightarrow>
     length (py_set (map (\<lambda>x. suit_value (card_suit x)) (hand_cards self))) = 1"

definition check :: "Hand \<Rightarrow> int list \<Rightarrow> error + bool" where
  "check self value_set =
     bind_err (py_max value_set) (\<lambda>hi.
     bind_err (py_min value_set) (\<lambda>lo.
       let value_range = hi - lo in
       Inr (value_range = hand_size self - 1 \<and> int (length value_set) = hand_size self)))"

definition is_straight :: "Hand \<Rightarrow> error + bool" where
  "is_straight self =
     (let values = map (\<lambda>x. value_value (card_value x)) (hand_cards self);
          low_ace = py_set values;
          high_ace = py_set (map (\<lambda>x. if x \<noteq> 1 then x else 14) values)
      in bind_err (check self low_ace) (\<lambda>b. if b then Inr True else check self high_ace))"

definition is_straight_flush :: "Hand \<Rightarrow> error + bool" where
  "is_straight_flush self = (if is_flush self then is_straight self else Inr False)"

definition is_three_of_a_kind :: "Hand \<Rightarrow> error + bool" where
  "is_three_of_a_kind self = (case vals self of [] \<Rightarrow> Inl IndexError | v # _ \<Rightarrow> Inr (v = 3))"

definition is_two_pair :: "Hand \<Rightarrow> bool" where
  "is_two_pair self \<longleftrightarrow> take 2 (vals self) = [2, 2]"

definition is_one_pair :: "Hand \<Rightarrow> error + bool" where
  "is_one_pair self = (case vals self of [] \<Rightarrow> Inl IndexError | v # _ \<Rightarrow> Inr (v = 2))"

definition rank :: "Hand \<Rightarrow> error + Rank" where
  "rank self =
     bind_err (is_straight_flush self) (\<lambda>sf. if sf then Inr STRAIGHT_FLUSH else
     bind_err (is_four_of_a_kind self) (\<lambda>fk. if fk then Inr FOUR_OF_A_KIND else
     if is_full_house self then Inr FULL_HOUSE else
     if is_flush self then Inr FLUSH else
     bind_err (is_straight self) (\<lambda>st. if st then Inr STRAIGHT else
     bind_err (is_three_of_a_kind self) (\<lambda>tk. if tk then Inr THREE_OF_A_KIND else
     if is_two_pair self then Inr TWO_PAIR else
     bind_err (is_one_pair self) (\<lambda>op. if op then Inr PAIR else
     Inr HIGH_CARD)))))"

subsection \<open>The classification in the words of the specification\<close>

text \<open>
  The value set of a hand under an interpretation of the ace, and the test for a
  straight on it: the largest minus the smallest value is the hand size minus one, and
  the number of distinct values is the hand size.
\<close>

definition ace_as :: "int \<Rightarrow> Card \<Rightarrow> int" where
  "ace_as a c = (if card_value c = ACE then a else value_value (card_value c))"

definition run_of_values :: "Card list \<Rightarrow> int set \<Rightarrow> bool" where
  "run_of_values cs S \<longleftrightarrow>
     Max S - Min S = int (length cs) - 1 \<and> int (card S) = int (length cs)"

definition straight_spec :: "Card list \<Rightarrow> bool" where
  "straight_spec cs \<longleftrightarrow>
     run_of_values cs (ace_as 1 ` set cs) \<or> run_of_values cs (ace_as 14 ` set cs)"

text \<open>
  The groups of a hand: how many cards it has of each value that occurs in it, the
  largest number first.
\<close>

definition multiplicity :: "Card list \<Rightarrow> Value \<Rightarrow> int" where
  "multiplicity cs v = int (length (filter (\<lambda>c. card_value c = v) cs))"

definition groups :: "Card list \<Rightarrow> int list" where
  "groups cs = rev (sort (map (multiplicity cs) (remdups (map card_value cs))))"

section \<open>Decks\<close>

text \<open>
  \<^verbatim>\<open>random.shuffle\<close> belongs to the standard library. It runs
  \<^verbatim>\<open>for i in reversed(range(1, len(x))): j = randbelow(i + 1); x[i], x[j] = x[j], x[i]\<close>.
  The generator is a stream of numbers, one read by each \<^verbatim>\<open>randbelow\<close> and reduced
  into the range asked for.
\<close>

type_synonym rng = "nat stream"

definition randbelow :: "nat \<Rightarrow> rng \<Rightarrow> nat \<times> rng" where
  "randbelow n g = (shd g mod n, stl g)"

fun random_shuffle_loop :: "nat \<Rightarrow> 'a list \<Rightarrow> rng \<Rightarrow> 'a list \<times> rng" where
  "random_shuffle_loop 0 x g = (x, g)"
| "random_shuffle_loop (Suc i') x g =
     (let i = Suc i'; (j, g') = randbelow (i + 1) g
      in random_shuffle_loop i' (x[i := x ! j, j := x ! i]) g')"

definition random_shuffle :: "'a list \<Rightarrow> rng \<Rightarrow> 'a list \<times> rng" where
  "random_shuffle x g = random_shuffle_loop (length x - 1) x g"

record Deck =
  deck_cards :: "Card list"
  shuffles :: int
  draws :: int

definition cards_left :: "Deck \<Rightarrow> int" where
  "cards_left self = int (length (deck_cards self))"

fun shuffle_loop :: "nat \<Rightarrow> Deck \<Rightarrow> rng \<Rightarrow> Deck \<times> rng" where
  "shuffle_loop 0 self g = (self, g)"
| "shuffle_loop (Suc n) self g =
     (let self1 = self\<lparr>shuffles := shuffles self + 1\<rparr>;
          (x, g') = random_shuffle (deck_cards self1) g
      in shuffle_loop n (self1\<lparr>deck_cards := x\<rparr>) g')"

definition shuffle :: "int \<Rightarrow> Deck \<Rightarrow> rng \<Rightarrow> Deck \<times> rng" where
  "shuffle ntimes self g = shuffle_loop (nat ntimes) self g"

text \<open>
  The default deck: every suit of \<^verbatim>\<open>Suits.all()\<close>, and within it every value of
  \<^verbatim>\<open>Values.all()\<close>, appended in turn; then the list is reversed.
\<close>

definition base_order :: "Card list" where
  "base_order =
     concat (map (\<lambda>s. map (\<lambda>v. \<lparr>card_value = v, card_suit = s\<rparr>) Values_all) Suits_all)"

text \<open>
  The constructor. \<^verbatim>\<open>if cards:\<close> is false for \<^verbatim>\<open>None\<close> and for the empty list.
\<close>

definition truthy :: "Card list option \<Rightarrow> bool" where
  "truthy cards = (case cards of None \<Rightarrow> False | Some cs \<Rightarrow> cs \<noteq> [])"

definition Deck_init :: "Card list option \<Rightarrow> bool \<Rightarrow> rng \<Rightarrow> Deck \<times> rng" where
  "Deck_init cards do_shuffle g =
     (let self = \<lparr>deck_cards = (if truthy cards then the cards else rev base_order),
                  shuffles = 0, draws = 0\<rparr>
      in if do_shuffle then shuffle 1 self g else (self, g))"

text \<open>
  \<^verbatim>\<open>list.pop()\<close> removes and returns the last element and raises \<^verbatim>\<open>IndexError\<close> on
  an empty list. An exception does not undo what was assigned before it: \<open>draw\<close>
  returns the deck as the call leaves it together with its result or its exception.
\<close>

definition pop :: "Deck \<Rightarrow> error + (Card \<times> Deck)" where
  "pop self =
     (if deck_cards self = [] then Inl IndexError
      else Inr (last (deck_cards self), self\<lparr>deck_cards := butlast (deck_cards self)\<rparr>))"

datatype drawn = One Card | Many "Card list"

fun draw_loop :: "nat \<Rightarrow> Card list \<Rightarrow> Deck \<Rightarrow> (error + Card list) \<times> Deck" where
  "draw_loop 0 cards self = (Inr cards, self)"
| "draw_loop (Suc n) cards self =
     (let self1 = self\<lparr>draws := draws self + 1\<rparr> in
      case pop self1 of
        Inl e \<Rightarrow> (Inl e, self1)
      | Inr (c, self2) \<Rightarrow> draw_loop n (cards @ [c]) self2)"

definition draw :: "int \<Rightarrow> Deck \<Rightarrow> (error + drawn) \<times> Deck" where
  "draw ntimes self =
     (if ntimes = 1 then
        (let self1 = self\<lparr>draws := draws self + 1\<rparr> in
         case pop self1 of
           Inl e \<Rightarrow> (Inl e, self1)
         | Inr (c, self2) \<Rightarrow> (Inr (One c), self2))
      else
        (case draw_loop (nat ntimes) [] self of
           (Inl e, self') \<Rightarrow> (Inl e, self')
         | (Inr cards, self') \<Rightarrow> (Inr (Many cards), self')))"

text \<open>
  \<^verbatim>\<open>draw_hand\<close> wraps what \<^verbatim>\<open>draw\<close> returns in a hand: the list as it is, a single
  card as a list of one card.
\<close>

definition draw_hand :: "int \<Rightarrow> Deck \<Rightarrow> (error + Hand) \<times> Deck" where
  "draw_hand sz self =
     (case draw sz self of
        (Inl e, self') \<Rightarrow> (Inl e, self')
      | (Inr cards, self') \<Rightarrow>
          (Inr (Hand_init (case cards of Many cs \<Rightarrow> cs | One c \<Rightarrow> [c])), self'))"

text \<open>
  A lifetime of a deck: calls of \<^verbatim>\<open>shuffle\<close>, \<^verbatim>\<open>draw\<close> and \<^verbatim>\<open>draw_hand\<close> in
  sequence, up to the first call that raises.
\<close>

datatype deck_op = Shuffle int | Draw int | DrawHand int

fun run :: "deck_op list \<Rightarrow> Deck \<Rightarrow> rng \<Rightarrow> error + (Deck \<times> rng)" where
  "run [] self g = Inr (self, g)"
| "run (Shuffle ntimes # ops) self g = (case shuffle ntimes self g of (self', g') \<Rightarrow> run ops self' g')"
| "run (Draw ntimes # ops) self g =
     (case draw ntimes self of
        (Inl e, self') \<Rightarrow> Inl e
      | (Inr r, self') \<Rightarrow> run ops self' g)"
| "run (DrawHand sz # ops) self g =
     (case draw_hand sz self of
        (Inl e, self') \<Rightarrow> Inl e
      | (Inr h, self') \<Rightarrow> run ops self' g)"

section \<open>Properties of cards\<close>

lemma Suits_all_eq: "Suits_all = [SPADES, CLUBS, DIAMONDS, HEARTS]"
  by (simp add: Suits_all_def Suits_dir_def)

lemma Values_all_eq:
  "Values_all = [ACE, TWO, THREE, FOUR, FIVE, SIX, SEVEN, EIGHT, NINE, TEN, JACK, QUEEN, KING]"
  by (simp add: Values_all_def Values_dir_def)

lemma Suits_dict_char: "Suits_dict (suit_char s) = Some s"
  by (cases s) (simp_all add: Suits_dict_def Suits_all_eq)

lemma Values_dict_char: "Values_dict (value_char v) = Some v"
  by (cases v) (simp_all add: Values_dict_def Values_all_eq)

lemma upper_letter_code: "upper (letter_code c) = letter_code c"
  by (cases c; cases "card_value c"; cases "card_suit c")
    (simp_all add: upper_def upper_char_def letter_code_def)

lemma Card_get_code:
  assumes "upper text = letter_code c"
  shows "Card_get text = Inr c"
proof -
  have "length (upper text) = 2"
    unfolding assms by (simp add: letter_code_def)
  then have len: "length text = 2"
    by (simp add: upper_def)
  have v: "upper text ! 0 = value_char (card_value c)"
    and s: "upper text ! Suc 0 = suit_char (card_suit c)"
    using assms by (simp_all add: letter_code_def)
  show ?thesis
    by (simp add: Card_get_def len v s Values_dict_char Suits_dict_char domIff Let_def)
qed

text \<open>
  C8. Parsing the letter-code form of any card gives back a card equal to it, and so
  does parsing any text that differs from that form only in the case of its letters.
\<close>

theorem Card_get_roundtrip:
  "(\<exists>c'. Card_get (letter_code c) = Inr c' \<and> Card_eq c' c) \<and>
   (upper text = upper (letter_code c) \<longrightarrow> (\<exists>c'. Card_get text = Inr c' \<and> Card_eq c' c))"
  by (simp add: upper_letter_code Card_get_code Card_eq_def)

theorem Card_get_roundtrip_witness:
  "upper ''as'' = upper (letter_code \<lparr>card_value = ACE, card_suit = SPADES\<rparr>) \<and>
   (\<exists>c'. Card_get ''as'' = Inr c' \<and> Card_eq c' \<lparr>card_value = ACE, card_suit = SPADES\<rparr>)"
proof -
  have u: "upper ''as'' = upper (letter_code \<lparr>card_value = ACE, card_suit = SPADES\<rparr>)"
    by code_simp
  with Card_get_roundtrip [of "\<lparr>card_value = ACE, card_suit = SPADES\<rparr>" "''as''"] show ?thesis
    by blast
qed

text \<open>
  C7, as the code has it. \<^verbatim>\<open><\<close> and \<^verbatim>\<open>>\<close> compare the value strength only. \<^verbatim>\<open><=\<close> is
  ``\<^verbatim>\<open><\<close> or \<^verbatim>\<open>==\<close>'' and \<^verbatim>\<open>>=\<close> is ``\<^verbatim>\<open>>\<close> or \<^verbatim>\<open>==\<close>'', where \<^verbatim>\<open>==\<close> asks for
  the same value and the same suit.
\<close>

theorem Card_orderings:
  "(Card_lt a b \<longleftrightarrow> value_value (card_value a) < value_value (card_value b)) \<and>
   (Card_gt a b \<longleftrightarrow> value_value (card_value a) > value_value (card_value b)) \<and>
   (Card_le a b \<longleftrightarrow> value_value (card_value a) < value_value (card_value b) \<or> a = b) \<and>
   (Card_ge a b \<longleftrightarrow> value_value (card_value a) > value_value (card_value b) \<or> a = b) \<and>
   (Card_eq a b \<longleftrightarrow> card_value a = card_value b \<and> card_suit a = card_suit b)"
  by (auto simp: Card_lt_def Card_gt_def Card_le_def Card_ge_def Card_eq_def)

text \<open>
  C7 as stated fails: the two of spades is not \<^verbatim>\<open><=\<close> the two of clubs, although its
  value strength is at most that of the two of clubs.
\<close>

theorem Card_le_counterexample:
  "\<not> (Card_le \<lparr>card_value = TWO, card_suit = SPADES\<rparr> \<lparr>card_value = TWO, card_suit = CLUBS\<rparr> \<longleftrightarrow>
      value_value (card_value \<lparr>card_value = TWO, card_suit = SPADES\<rparr>) \<le> value_value (card_value \<lparr>card_value = TWO, card_suit = CLUBS\<rparr>))"
  by (simp add: Card_lt_def Card_le_def Card_eq_def)

section \<open>Properties of decks\<close>

lemma draw_loop_underflow:
  "length (deck_cards self) < n \<Longrightarrow>
   draw_loop n cards self =
     (Inl IndexError, self\<lparr>deck_cards := [], draws := draws self + cards_left self + 1\<rparr>)"
proof (induction n arbitrary: cards self)
  case 0
  then show ?case by simp
next
  case (Suc n)
  show ?case
  proof (cases "deck_cards self = []")
    case True
    then show ?thesis by (simp add: pop_def cards_left_def)
  next
    case False
    then have "length (butlast (deck_cards self)) < n"
      using Suc.prems by (cases "deck_cards self" rule: rev_cases) auto
    moreover have "1 + int (length (deck_cards self) - Suc 0) = int (length (deck_cards self))"
      using False by (cases "deck_cards self") auto
    ultimately show ?thesis
      using False by (simp add: pop_def Suc.IH cards_left_def)
  qed
qed

lemma draw_loop_ok:
  "n \<le> length (deck_cards self) \<Longrightarrow>
   draw_loop n cards self =
     (Inr (cards @ take n (rev (deck_cards self))),
      self\<lparr>deck_cards := take (length (deck_cards self) - n) (deck_cards self),
           draws := draws self + int n\<rparr>)"
proof (induction n arbitrary: cards self)
  case 0
  then show ?case by simp
next
  case (Suc n)
  then obtain xs x where xs: "deck_cards self = xs @ [x]"
    by (cases "deck_cards self" rule: rev_cases) auto
  with Suc.prems have "n \<le> length xs" by simp
  then show ?case
    using xs by (simp add: pop_def Suc.IH)
qed

lemma draw_underflow:
  assumes "cards_left self < ntimes"
  shows "draw ntimes self =
     (Inl IndexError, self\<lparr>deck_cards := [], draws := draws self + cards_left self + 1\<rparr>)"
proof (cases "ntimes = 1")
  case True
  with assms have "deck_cards self = []" by (simp add: cards_left_def)
  then show ?thesis using True by (simp add: draw_def pop_def cards_left_def)
next
  case False
  from assms have "length (deck_cards self) < nat ntimes" by (simp add: cards_left_def)
  then show ?thesis using False by (simp add: draw_def draw_loop_underflow)
qed

lemma draw_ok:
  assumes "fst (draw ntimes self) = Inr r"
  shows "draws (snd (draw ntimes self)) + cards_left (snd (draw ntimes self)) = draws self + cards_left self"
proof (cases "cards_left self < ntimes")
  case True
  then show ?thesis using assms by (simp add: draw_underflow)
next
  case False
  then have le: "nat ntimes \<le> length (deck_cards self)" by (simp add: cards_left_def)
  show ?thesis
  proof (cases "ntimes = 1")
    case True
    with le have "deck_cards self \<noteq> []" by auto
    then show ?thesis using True by (cases "deck_cards self") (simp_all add: draw_def pop_def cards_left_def)
  next
    case False
    then show ?thesis using le by (simp add: draw_def draw_loop_ok cards_left_def)
  qed
qed

lemma random_shuffle_loop_mset:
  "k < length x \<or> k = 0 \<Longrightarrow> mset (fst (random_shuffle_loop k x g)) = mset x"
proof (induction k arbitrary: x g)
  case 0
  then show ?case by simp
next
  case (Suc k)
  then have i: "Suc k < length x" by simp
  have "shd g mod (Suc k + 1) < Suc k + 1" by simp
  with i have j: "shd g mod (Suc k + 1) < length x" by linarith
  let ?x' = "x[Suc k := x ! (shd g mod (Suc k + 1)), shd g mod (Suc k + 1) := x ! Suc k]"
  have "mset ?x' = mset x" by (rule mset_swap[OF j i])
  moreover have "k < length ?x' \<or> k = 0" using i by simp
  ultimately show ?case
    using Suc.IH[of ?x' "stl g"] by (simp add: randbelow_def)
qed

lemma random_shuffle_mset: "mset (fst (random_shuffle x g)) = mset x"
  by (cases x) (simp_all add: random_shuffle_def random_shuffle_loop_mset)

lemma shuffle_loop_frame:
  "mset (deck_cards (fst (shuffle_loop n self g))) = mset (deck_cards self) \<and>
   draws (fst (shuffle_loop n self g)) = draws self \<and>
   shuffles (fst (shuffle_loop n self g)) = shuffles self + int n"
proof (induction n arbitrary: self g)
  case 0
  then show ?case by simp
next
  case (Suc n)
  obtain x g' where r: "random_shuffle (deck_cards self) g = (x, g')" by (cases "random_shuffle (deck_cards self) g")
  then have "mset x = mset (deck_cards self)" using random_shuffle_mset[of "deck_cards self" g] by simp
  then show ?case using r Suc.IH[of "self\<lparr>shuffles := shuffles self + 1, deck_cards := x\<rparr>" g'] by simp
qed


lemma shuffle_frame:
  "length (deck_cards (fst (shuffle ntimes self g))) = length (deck_cards self) \<and>
   draws (fst (shuffle ntimes self g)) = draws self"
  using shuffle_loop_frame[of "nat ntimes" self g] mset_eq_length
  by (auto simp: shuffle_def)

lemma draw_hand_ok:
  assumes "fst (draw_hand sz self) = Inr h"
  shows "draws (snd (draw_hand sz self)) + cards_left (snd (draw_hand sz self)) =
    draws self + cards_left self"
proof -
  obtain r s1 where d: "draw sz self = (r, s1)" by (cases "draw sz self")
  with assms obtain x where r: "r = Inr x"
    by (cases r) (auto simp: draw_hand_def)
  have "snd (draw_hand sz self) = s1"
    using d r by (simp add: draw_hand_def)
  then show ?thesis
    using draw_ok[of sz self x] d r by simp
qed

lemma run_invariant:
  "run ops self g = Inr (self', g') \<Longrightarrow>
   draws self' + cards_left self' = draws self + cards_left self"
proof (induction ops arbitrary: self g)
  case Nil
  then show ?case by simp
next
  case (Cons op ops)
  show ?case
  proof (cases op)
    case (Shuffle n)
    obtain s1 g1 where s: "shuffle n self g = (s1, g1)" by (cases "shuffle n self g")
    with Cons.prems Shuffle have "run ops s1 g1 = Inr (self', g')" by simp
    then have "draws self' + cards_left self' = draws s1 + cards_left s1" by (rule Cons.IH)
    moreover have "draws s1 + cards_left s1 = draws self + cards_left self"
      using shuffle_frame[of n self g] s by (simp add: cards_left_def)
    ultimately show ?thesis by simp
  next
    case (Draw n)
    obtain r s1 where d: "draw n self = (r, s1)" by (cases "draw n self")
    with Cons.prems Draw obtain x where r: "r = Inr x" and rest: "run ops s1 g = Inr (self', g')"
      by (cases r) auto
    from rest have "draws self' + cards_left self' = draws s1 + cards_left s1" by (rule Cons.IH)
    moreover have "draws s1 + cards_left s1 = draws self + cards_left self"
      using draw_ok[of n self x] d r by simp
    ultimately show ?thesis by simp
  next
    case (DrawHand n)
    obtain r s1 where d: "draw_hand n self = (r, s1)" by (cases "draw_hand n self")
    with Cons.prems DrawHand obtain x where r: "r = Inr x"
      and rest: "run ops s1 g = Inr (self', g')"
      by (cases r) auto
    from rest have "draws self' + cards_left self' = draws s1 + cards_left s1" by (rule Cons.IH)
    moreover have "draws s1 + cards_left s1 = draws self + cards_left self"
      using draw_hand_ok[of n self x] d r by simp
    ultimately show ?thesis by simp
  qed
qed

lemma Deck_init_draws: "draws (fst (Deck_init cards sh g)) = 0"
  using shuffle_frame[of 1 _ g] by (simp add: Deck_init_def Let_def)

text \<open>
  C9. A draw of zero or of a negative number of cards returns the empty list and leaves
  the deck, its cards and its counters, as it was; it raises nothing.
\<close>

theorem draw_nonpositive:
  "ntimes \<le> 0 \<Longrightarrow> draw ntimes self = (Inr (Many []), self)"
  by (simp add: draw_def)

theorem draw_nonpositive_witness:
  "(- 1 :: int) \<le> 0 \<and> draw (- 1) \<lparr>deck_cards = [\<lparr>card_value = ACE, card_suit = SPADES\<rparr>], shuffles = 0, draws = 0\<rparr> = (Inr (Many []), \<lparr>deck_cards = [\<lparr>card_value = ACE, card_suit = SPADES\<rparr>], shuffles = 0, draws = 0\<rparr>)"
  using draw_nonpositive [of "- 1" "\<lparr>deck_cards = [\<lparr>card_value = ACE, card_suit = SPADES\<rparr>], shuffles = 0, draws = 0\<rparr>"] by simp

text \<open>
  C1, as the code has it. A draw of more cards than remain raises \<^verbatim>\<open>IndexError\<close> and
  returns no cards, but only after it has popped every remaining card: the deck is
  empty afterwards.
\<close>

theorem draw_underflow_empties_deck:
  "cards_left self < ntimes \<Longrightarrow>
   fst (draw ntimes self) = Inl IndexError \<and>
   deck_cards (snd (draw ntimes self)) = [] \<and>
   cards_left (snd (draw ntimes self)) = 0 \<and>
   shuffles (snd (draw ntimes self)) = shuffles self"
  by (simp add: draw_underflow cards_left_def)

theorem draw_underflow_empties_deck_witness:
  "cards_left \<lparr>deck_cards = [\<lparr>card_value = ACE, card_suit = SPADES\<rparr>], shuffles = 0, draws = 0\<rparr> < 2 \<and>
   fst (draw 2 \<lparr>deck_cards = [\<lparr>card_value = ACE, card_suit = SPADES\<rparr>], shuffles = 0, draws = 0\<rparr>) = Inl IndexError \<and>
   deck_cards (snd (draw 2 \<lparr>deck_cards = [\<lparr>card_value = ACE, card_suit = SPADES\<rparr>], shuffles = 0, draws = 0\<rparr>)) = []"
  using draw_underflow_empties_deck [of "\<lparr>deck_cards = [\<lparr>card_value = ACE, card_suit = SPADES\<rparr>], shuffles = 0, draws = 0\<rparr>" 2] by (simp add: cards_left_def)

text \<open>
  C1 as stated fails: a draw of two cards from a deck of one card raises, and the deck
  that had one card left has none left afterwards.
\<close>

theorem draw_underflow_counterexample:
  "fst (draw 2 \<lparr>deck_cards = [\<lparr>card_value = ACE, card_suit = SPADES\<rparr>], shuffles = 0, draws = 0\<rparr>) = Inl IndexError \<and>
   cards_left \<lparr>deck_cards = [\<lparr>card_value = ACE, card_suit = SPADES\<rparr>], shuffles = 0, draws = 0\<rparr> = 1 \<and>
   cards_left (snd (draw 2 \<lparr>deck_cards = [\<lparr>card_value = ACE, card_suit = SPADES\<rparr>], shuffles = 0, draws = 0\<rparr>)) = 0"
  by (simp add: draw_underflow cards_left_def)

text \<open>
  C2, as the code has it. As long as no call has raised, the draws counter plus the
  number of cards left is the number of cards the deck was constructed with.
\<close>

theorem draws_plus_cards_left:
  "run ops (fst (Deck_init cards sh g)) (snd (Deck_init cards sh g)) = Inr (self', g') \<Longrightarrow>
   draws self' + cards_left self' = cards_left (fst (Deck_init cards sh g))"
  using run_invariant[of ops "fst (Deck_init cards sh g)" "snd (Deck_init cards sh g)" self' g']
  by (simp add: Deck_init_draws)

theorem draws_plus_cards_left_witness:
  "run [Shuffle 1, Draw 1] (fst (Deck_init (Some [\<lparr>card_value = ACE, card_suit = SPADES\<rparr>, \<lparr>card_value = KING, card_suit = HEARTS\<rparr>]) False (sconst 0)))
     (snd (Deck_init (Some [\<lparr>card_value = ACE, card_suit = SPADES\<rparr>, \<lparr>card_value = KING, card_suit = HEARTS\<rparr>]) False (sconst 0))) =
     Inr (\<lparr>deck_cards = [\<lparr>card_value = KING, card_suit = HEARTS\<rparr>], shuffles = 1, draws = 1\<rparr>, sconst 0) \<and>
   draws \<lparr>deck_cards = [\<lparr>card_value = KING, card_suit = HEARTS\<rparr>], shuffles = 1, draws = 1\<rparr> +
     cards_left \<lparr>deck_cards = [\<lparr>card_value = KING, card_suit = HEARTS\<rparr>], shuffles = 1, draws = 1\<rparr> =
     cards_left (fst (Deck_init (Some [\<lparr>card_value = ACE, card_suit = SPADES\<rparr>, \<lparr>card_value = KING, card_suit = HEARTS\<rparr>]) False (sconst 0)))"
proof -
  have r: "run [Shuffle 1, Draw 1] (fst (Deck_init (Some [\<lparr>card_value = ACE, card_suit = SPADES\<rparr>, \<lparr>card_value = KING, card_suit = HEARTS\<rparr>]) False (sconst 0)))
     (snd (Deck_init (Some [\<lparr>card_value = ACE, card_suit = SPADES\<rparr>, \<lparr>card_value = KING, card_suit = HEARTS\<rparr>]) False (sconst 0))) =
     Inr (\<lparr>deck_cards = [\<lparr>card_value = KING, card_suit = HEARTS\<rparr>], shuffles = 1, draws = 1\<rparr>, sconst 0)"
    by (simp add: Deck_init_def truthy_def shuffle_def random_shuffle_def randbelow_def
        draw_def pop_def)
  from draws_plus_cards_left [OF r] r show ?thesis
    by (rule conjI [rotated])
qed

text \<open>
  C2 as stated fails: a deck constructed with one card, after a draw of two cards has
  raised, has counted two draws and has no card left.
\<close>

theorem draws_plus_cards_left_counterexample:
  "draws (snd (draw 2 (fst (Deck_init (Some [\<lparr>card_value = ACE, card_suit = SPADES\<rparr>]) False (sconst 0))))) +
   cards_left (snd (draw 2 (fst (Deck_init (Some [\<lparr>card_value = ACE, card_suit = SPADES\<rparr>]) False (sconst 0))))) = 2 \<and>
   cards_left (fst (Deck_init (Some [\<lparr>card_value = ACE, card_suit = SPADES\<rparr>]) False (sconst 0))) = 1"
  by (simp add: draw_underflow cards_left_def Deck_init_def truthy_def)

subsection \<open>The default deck\<close>

lemma distinct_Values_all: "distinct Values_all"
  by (simp add: Values_all_eq)

lemma set_Values_all: "set Values_all = UNIV"
proof -
  have "v \<in> set Values_all" for v by (cases v) (simp_all add: Values_all_eq)
  then show ?thesis by auto
qed

lemma set_Suits_all: "set Suits_all = UNIV"
proof -
  have "s \<in> set Suits_all" for s by (cases s) (simp_all add: Suits_all_eq)
  then show ?thesis by auto
qed

lemma distinct_base_order: "distinct base_order"
  unfolding base_order_def
  by (rule distinct_concat) (auto simp: distinct_map inj_on_def Suits_all_eq Values_all_eq)

lemma set_base_order: "c \<in> set base_order"
proof (cases c)
  case (fields v s)
  have "v \<in> set Values_all" "s \<in> set Suits_all"
    by (simp_all add: set_Values_all set_Suits_all)
  then show ?thesis unfolding base_order_def fields by auto
qed

lemma length_base_order: "length base_order = 52"
  by (simp add: base_order_def Suits_all_eq Values_all_eq)

lemma count_base_order: "count (mset base_order) c = 1"
  using distinct_base_order set_base_order[of c] by (simp add: distinct_count_atmost_1)

lemma hd_base_order: "base_order ! 0 = \<lparr>card_value = ACE, card_suit = SPADES\<rparr>"
  by (simp add: base_order_def Suits_all_eq Values_all_eq)

lemma Deck_init_default_mset:
  "\<not> truthy cards \<Longrightarrow> mset (deck_cards (fst (Deck_init cards sh g))) = mset base_order"
  using shuffle_loop_frame[of "nat 1" "\<lparr>deck_cards = rev base_order, shuffles = 0, draws = 0\<rparr>" g]
  by (simp add: Deck_init_def shuffle_def Let_def del: shuffle_loop.simps)

lemma random_shuffle_loop_above:
  "k < m \<Longrightarrow> fst (random_shuffle_loop k x g) ! m = x ! m"
proof (induction k arbitrary: x g)
  case 0
  then show ?case by simp
next
  case (Suc k)
  have "shd g mod (Suc k + 1) < Suc k + 1" by simp
  then have "shd g mod (Suc k + 1) \<noteq> m" using Suc.prems by linarith
  then show ?case using Suc.prems Suc.IH[of _ "stl g"] by (simp add: randbelow_def)
qed

lemma Deck_init_shuffled:
  "\<not> truthy cards \<Longrightarrow>
   deck_cards (fst (Deck_init cards True g)) = fst (random_shuffle (rev base_order) g)"
  by (simp add: Deck_init_def shuffle_def Let_def split_beta)

lemma top_after_zero_shuffle:
  "last (deck_cards (fst (Deck_init None True (sconst 0)))) = \<lparr>card_value = KING, card_suit = HEARTS\<rparr>"
proof -
  let ?x = "rev base_order"
  have len: "length ?x = Suc 51" by (simp add: length_base_order)
  have x0: "?x ! 0 = \<lparr>card_value = KING, card_suit = HEARTS\<rparr>"
    by (simp add: base_order_def Suits_all_eq Values_all_eq)
  have "fst (random_shuffle ?x (sconst 0)) ! 51 = (?x[51 := ?x ! 0, 0 := ?x ! 51]) ! 51"
    unfolding random_shuffle_def len
    using random_shuffle_loop_above[of 50 51 "?x[51 := ?x ! 0, 0 := ?x ! 51]" "stl (sconst 0)"]
      random_shuffle_loop.simps(2)[of 50 ?x "sconst 0"]
    by (simp add: randbelow_def)
  also have "\<dots> = ?x ! 0" using len by simp
  finally have "fst (random_shuffle ?x (sconst 0)) ! 51 = \<lparr>card_value = KING, card_suit = HEARTS\<rparr>"
    using x0 by simp
  moreover have "length (fst (random_shuffle ?x (sconst 0))) = 52"
    using mset_eq_length[OF random_shuffle_mset[of ?x "sconst 0"]] by (simp add: length_base_order)
  ultimately have "last (fst (random_shuffle ?x (sconst 0))) = \<lparr>card_value = KING, card_suit = HEARTS\<rparr>"
    by (simp add: last_conv_nth[of "fst (random_shuffle ?x (sconst 0))"] length_0_conv[symmetric] del: length_0_conv)
  then show ?thesis
    by (simp add: Deck_init_shuffled truthy_def)
qed


text \<open>
  C3, as the code has it. A deck constructed with the default enumeration holds each of
  the 52 cards exactly once. When it is constructed without shuffling, its cards are
  the base enumeration, suit by suit and value by value, reversed: the first draw
  returns the first card of the base enumeration, and a draw of all 52 returns the
  base enumeration in its order.
\<close>

theorem default_deck_contents:
  assumes "\<not> truthy cards"
  shows "(\<forall>c. count (mset (deck_cards (fst (Deck_init cards sh g)))) c = 1) \<and>
         cards_left (fst (Deck_init cards sh g)) = 52 \<and>
         (\<not> sh \<longrightarrow> deck_cards (fst (Deck_init cards sh g)) = rev base_order \<and>
            fst (draw 1 (fst (Deck_init cards sh g))) = Inr (One (base_order ! 0)) \<and>
            fst (draw 52 (fst (Deck_init cards sh g))) = Inr (Many base_order))"
proof -
  have m: "mset (deck_cards (fst (Deck_init cards sh g))) = mset base_order"
    using assms by (rule Deck_init_default_mset)
  have "length (deck_cards (fst (Deck_init cards sh g))) = 52"
    using mset_eq_length[OF m] by (simp add: length_base_order)
  then have n: "cards_left (fst (Deck_init cards sh g)) = 52" by (simp add: cards_left_def)
  have f: "deck_cards (fst (Deck_init cards False g)) = rev base_order"
    using assms by (simp add: Deck_init_def)
  have ne: "base_order \<noteq> []" using length_base_order by auto
  have d1: "fst (draw 1 (fst (Deck_init cards False g))) = Inr (One (base_order ! 0))"
    using ne by (simp add: draw_def pop_def f last_rev hd_conv_nth)
  have d52: "fst (draw 52 (fst (Deck_init cards False g))) = Inr (Many base_order)"
    by (simp add: draw_def draw_loop_ok f length_base_order)
  show ?thesis using m n f d1 d52 by (auto simp: count_base_order)
qed


theorem default_deck_contents_witness:
  "\<not> truthy None \<and>
   cards_left (fst (Deck_init None False (sconst 0))) = 52 \<and>
   deck_cards (fst (Deck_init None False (sconst 0))) = rev base_order \<and>
   fst (draw 52 (fst (Deck_init None False (sconst 0)))) = Inr (Many base_order)"
  using default_deck_contents [of None False "sconst 0"] by (simp add: truthy_def)

text \<open>
  C3 as stated fails: constructed with the default \<^verbatim>\<open>shuffle=True\<close>, and with a generator
  that returns zero every time, the deck ends with the king of hearts, which the first
  draw returns; the reversed base enumeration ends with the ace of spades.
\<close>

theorem default_deck_order_counterexample:
  "deck_cards (fst (Deck_init None True (sconst 0))) \<noteq> rev base_order \<and>
   fst (draw 1 (fst (Deck_init None True (sconst 0)))) \<noteq> Inr (One (base_order ! 0))"
proof -
  let ?d = "fst (Deck_init None True (sconst 0))"
  have ne: "deck_cards ?d \<noteq> []"
    using Deck_init_default_mset[of None True "sconst 0"] length_base_order
    by (auto simp: truthy_def)
  have l: "last (deck_cards ?d) = \<lparr>card_value = KING, card_suit = HEARTS\<rparr>"
    by (rule top_after_zero_shuffle)
  have "base_order \<noteq> []"
    using length_base_order by auto
  then have "last (rev base_order) = base_order ! 0"
    by (simp add: last_rev hd_conv_nth)
  then have neq: "last (rev base_order) \<noteq> last (deck_cards ?d)"
    by (simp add: l hd_base_order)
  have a: "deck_cards ?d \<noteq> rev base_order"
  proof
    assume "deck_cards ?d = rev base_order"
    then have "last (deck_cards ?d) = last (rev base_order)" by (rule arg_cong)
    with neq show False by simp
  qed
  have "fst (draw 1 ?d) = Inr (One (last (deck_cards ?d)))"
    using ne by (simp add: draw_def pop_def)
  then have b: "fst (draw 1 ?d) \<noteq> Inr (One (base_order ! 0))"
    by (simp add: l hd_base_order)
  from a b show ?thesis by (rule conjI)
qed

section \<open>Properties of hands\<close>

lemma single_card_straight_flush: "is_straight_flush (Hand_init [c]) = Inr True"
  by (simp add: Hand_init_def is_straight_flush_def is_flush_def is_straight_def check_def
      py_set_def py_max_def py_min_def bind_err_def Let_def)

text \<open>
  C10. A hand of exactly one card ranks as a straight flush.
\<close>

theorem single_card_rank: "rank (Hand_init [c]) = Inr STRAIGHT_FLUSH"
  by (simp add: rank_def single_card_straight_flush bind_err_def)

lemma py_max_set: "xs \<noteq> [] \<Longrightarrow> py_max (py_set xs) = Inr (Max (set xs))"
proof -
  assume "xs \<noteq> []"
  then have "remdups xs \<noteq> []" by simp
  then obtain y ys where r: "remdups xs = y # ys" by (cases "remdups xs") auto
  have "fold max ys y = Max (set (y # ys))" by (simp only: Max.set_eq_fold)
  also have "\<dots> = Max (set xs)" using r by (metis set_remdups)
  finally show ?thesis using r by (simp add: py_max_def py_set_def)
qed

lemma py_min_set: "xs \<noteq> [] \<Longrightarrow> py_min (py_set xs) = Inr (Min (set xs))"
proof -
  assume "xs \<noteq> []"
  then have "remdups xs \<noteq> []" by simp
  then obtain y ys where r: "remdups xs = y # ys" by (cases "remdups xs") auto
  have "fold min ys y = Min (set (y # ys))" by (simp only: Min.set_eq_fold)
  also have "\<dots> = Min (set xs)" using r by (metis set_remdups)
  finally show ?thesis using r by (simp add: py_min_def py_set_def)
qed

lemma Hand_init_fields:
  "hand_cards (Hand_init cs) = sort_key (\<lambda>x. value_value (card_value x)) cs"
  "hand_size (Hand_init cs) = int (length cs)"
  "value_counts (Hand_init cs) =
     Counter (map (\<lambda>x. value_value (card_value x)) (sort_key (\<lambda>x. value_value (card_value x)) cs))"
  by (simp_all add: Hand_init_def Let_def)

lemma length_py_set: "length (py_set xs) = card (set xs)"
  by (simp add: py_set_def length_remdups_card_conv)

lemma sort_key_empty_iff: "sort_key f xs = [] \<longleftrightarrow> xs = []"
proof -
  have "length (sort_key f xs) = length xs" by simp
  then show ?thesis by (metis length_0_conv)
qed

lemma check_set:
  "xs \<noteq> [] \<Longrightarrow>
   check (Hand_init cs) (py_set xs) = Inr (run_of_values cs (set xs))"
  by (simp add: check_def py_max_set py_min_set bind_err_def Hand_init_fields run_of_values_def
      length_py_set)

lemma ace_as_low: "ace_as 1 c = value_value (card_value c)"
  by (cases "card_value c") (simp_all add: ace_as_def)

lemma ace_as_high:
  "ace_as 14 c = (if value_value (card_value c) \<noteq> 1 then value_value (card_value c) else 14)"
  by (cases "card_value c") (simp_all add: ace_as_def)

lemma is_straight_spec:
  assumes "cs \<noteq> []"
  shows "is_straight (Hand_init cs) = Inr (straight_spec cs)"
proof -
  let ?vs = "map (\<lambda>x. value_value (card_value x)) (sort_key (\<lambda>x. value_value (card_value x)) cs)"
  let ?hs = "map (\<lambda>x. if x \<noteq> 1 then x else 14) ?vs"
  have ne: "?vs \<noteq> []" "?hs \<noteq> []" using assms by (simp_all add: sort_key_empty_iff)
  have lo: "set ?vs = ace_as 1 ` set cs"
    by (auto simp: ace_as_low)
  have hi: "set ?hs = ace_as 14 ` set cs"
    by (auto simp: ace_as_high image_iff)
  show ?thesis
    unfolding is_straight_def Let_def Hand_init_fields
    by (simp only: check_set[OF ne(1)] check_set[OF ne(2)] lo hi)
       (simp add: bind_err_def straight_spec_def)
qed

lemma wheel: "is_straight (Hand_init
    [\<lparr>card_value = ACE, card_suit = s1\<rparr>, \<lparr>card_value = TWO, card_suit = s2\<rparr>,
     \<lparr>card_value = THREE, card_suit = s3\<rparr>, \<lparr>card_value = FOUR, card_suit = s4\<rparr>,
     \<lparr>card_value = FIVE, card_suit = s5\<rparr>]) = Inr True"
  by (simp add: is_straight_def Hand_init_fields check_def py_set_def py_max_def py_min_def bind_err_def Let_def)

lemma broadway: "is_straight (Hand_init
    [\<lparr>card_value = TEN, card_suit = s1\<rparr>, \<lparr>card_value = JACK, card_suit = s2\<rparr>,
     \<lparr>card_value = QUEEN, card_suit = s3\<rparr>, \<lparr>card_value = KING, card_suit = s4\<rparr>,
     \<lparr>card_value = ACE, card_suit = s5\<rparr>]) = Inr True"
  by (simp add: is_straight_def Hand_init_fields check_def py_set_def py_max_def py_min_def bind_err_def Let_def)

lemmas rank_eval = rank_def is_straight_flush_def is_flush_def is_straight_def check_def py_set_def
  py_max_def py_min_def bind_err_def Let_def Hand_init_def is_four_of_a_kind_def is_full_house_def
  is_three_of_a_kind_def is_two_pair_def is_one_pair_def vals_def Counter_def

lemma wheel_rank: "rank (Hand_init
    [\<lparr>card_value = ACE, card_suit = SPADES\<rparr>, \<lparr>card_value = TWO, card_suit = CLUBS\<rparr>,
     \<lparr>card_value = THREE, card_suit = DIAMONDS\<rparr>, \<lparr>card_value = FOUR, card_suit = HEARTS\<rparr>,
     \<lparr>card_value = FIVE, card_suit = SPADES\<rparr>]) = Inr STRAIGHT"
  by (simp add: rank_eval)

lemma broadway_rank: "rank (Hand_init
    [\<lparr>card_value = TEN, card_suit = SPADES\<rparr>, \<lparr>card_value = JACK, card_suit = CLUBS\<rparr>,
     \<lparr>card_value = QUEEN, card_suit = DIAMONDS\<rparr>, \<lparr>card_value = KING, card_suit = HEARTS\<rparr>,
     \<lparr>card_value = ACE, card_suit = SPADES\<rparr>]) = Inr STRAIGHT"
  by (simp add: rank_eval)

lemma Counter_snoc: "Counter (xs @ [x]) = counter_add x (Counter xs)"
  by (simp add: Counter_def)

lemma counter_add_nonempty: "counter_add k kvs \<noteq> []"
  by (cases kvs) (auto split: if_splits)

lemma Counter_nonempty: "xs \<noteq> [] \<Longrightarrow> Counter xs \<noteq> []"
  by (cases xs rule: rev_cases) (simp_all add: Counter_snoc counter_add_nonempty)

lemma vals_nonempty: "cs \<noteq> [] \<Longrightarrow> vals (Hand_init cs) \<noteq> []"
  by (simp add: vals_def Hand_init_fields Counter_nonempty sort_key_empty_iff)

lemma counter_add_map_of:
  "map_of (counter_add k kvs) =
     (map_of kvs)(k \<mapsto> (case map_of kvs k of None \<Rightarrow> 1 | Some n \<Rightarrow> n + 1))"
  by (induction kvs) (auto simp: fun_eq_iff)

lemma counter_add_keys:
  "map fst (counter_add k kvs) =
     (if k \<in> fst ` set kvs then map fst kvs else map fst kvs @ [k])"
  by (induction kvs) force+

lemma Counter_inv:
  "distinct (map fst (Counter xs)) \<and> set (map fst (Counter xs)) = set xs \<and>
   (\<forall>k. map_of (Counter xs) k = (if k \<in> set xs then Some (int (count_list xs k)) else None))"
proof (induction xs rule: rev_induct)
  case Nil
  then show ?case by (simp add: Counter_def)
next
  case (snoc x xs)
  then show ?case
    by (auto simp: Counter_snoc counter_add_keys counter_add_map_of)
qed

lemma distinct_keys_snd:
  "distinct (map fst kvs) \<Longrightarrow> map snd kvs = map (\<lambda>k. the (map_of kvs k)) (map fst kvs)"
proof (induction kvs)
  case Nil
  then show ?case by simp
next
  case (Cons kv kvs)
  then have "map snd kvs = map (\<lambda>k. the (map_of kvs k)) (map fst kvs)" by simp
  moreover have "map (\<lambda>k. the (map_of (kv # kvs) k)) (map fst kvs) =
      map (\<lambda>k. the (map_of kvs k)) (map fst kvs)"
    using Cons.prems by (intro map_cong) (auto simp: image_iff)
  ultimately show ?case by (cases kv) simp
qed

lemma Counter_counts:
  "mset (map snd (Counter xs)) = image_mset (\<lambda>k. int (count_list xs k)) (mset (remdups xs))"
proof -
  have d: "distinct (map fst (Counter xs))" and s: "set (map fst (Counter xs)) = set xs"
    and m: "\<And>k. k \<in> set xs \<Longrightarrow> map_of (Counter xs) k = Some (int (count_list xs k))"
    using Counter_inv[of xs] by simp_all
  have "map snd (Counter xs) = map (\<lambda>k. the (map_of (Counter xs) k)) (map fst (Counter xs))"
    using d by (rule distinct_keys_snd)
  also have "\<dots> = map (\<lambda>k. int (count_list xs k)) (map fst (Counter xs))"
    using s m by (intro map_cong) auto
  finally have e: "map snd (Counter xs) =
      map (\<lambda>k. int (count_list xs k)) (map fst (Counter xs))" .
  have keys: "mset (map fst (Counter xs)) = mset (remdups xs)"
    using d s set_eq_iff_mset_eq_distinct[of "map fst (Counter xs)" "remdups xs"] by simp
  have "mset (map snd (Counter xs)) =
      mset (map (\<lambda>k. int (count_list xs k)) (map fst (Counter xs)))"
    using e by (rule arg_cong)
  also have "\<dots> = image_mset (\<lambda>k. int (count_list xs k)) (mset (map fst (Counter xs)))"
    by (simp only: mset_map)
  also have "\<dots> = image_mset (\<lambda>k. int (count_list xs k)) (mset (remdups xs))"
    by (simp only: keys)
  finally show ?thesis .
qed

lemma inj_value_value: "inj value_value"
proof (rule injI)
  fix x y assume "value_value x = value_value y"
  then show "x = y" by (cases x; cases y; simp)
qed

lemma count_list_map_inj: "inj f \<Longrightarrow> count_list (map f xs) (f x) = count_list xs x"
  by (induction xs) (auto dest: injD)

lemma remdups_map_inj: "inj f \<Longrightarrow> remdups (map f xs) = map f (remdups xs)"
  by (induction xs) (auto dest: injD)

lemma count_list_card_value:
  "int (count_list (map card_value cs) v) = multiplicity cs v"
  by (induction cs) (auto simp: multiplicity_def)

lemma Counter_map_inj:
  assumes "inj f"
  shows "mset (map snd (Counter (map f ws))) =
    image_mset (\<lambda>w. int (count_list ws w)) (mset (remdups ws))"
proof -
  have "mset (map snd (Counter (map f ws))) =
      image_mset (\<lambda>k. int (count_list (map f ws) k)) (mset (remdups (map f ws)))"
    by (rule Counter_counts)
  also have "\<dots> = image_mset (\<lambda>k. int (count_list (map f ws) k))
      (image_mset f (mset (remdups ws)))"
    by (simp only: remdups_map_inj[OF assms] mset_map)
  also have "\<dots> = image_mset (\<lambda>w. int (count_list (map f ws) (f w))) (mset (remdups ws))"
    by (simp add: image_mset.compositionality comp_def)
  also have "\<dots> = image_mset (\<lambda>w. int (count_list ws w)) (mset (remdups ws))"
    by (simp only: count_list_map_inj[OF assms])
  finally show ?thesis .
qed

lemma vals_groups: "vals (Hand_init cs) = groups cs"
proof -
  let ?vv = "\<lambda>x. value_value (card_value x)"
  let ?xs = "map ?vv (sort_key ?vv cs)"
  let ?V = "map card_value cs"
  let ?W = "map card_value (sort_key ?vv cs)"
  have xs: "?xs = map value_value ?W" by simp
  have W: "mset ?W = mset ?V" by simp
  have cnt: "count_list ?W v = count_list ?V v" for v
    using W by (metis count_mset)
  have rd: "mset (remdups ?W) = mset (remdups ?V)"
    using W by (metis set_eq_iff_mset_remdups_eq mset_eq_setD)
  have "mset (map snd (Counter ?xs)) =
      image_mset (\<lambda>w. int (count_list ?W w)) (mset (remdups ?W))"
    unfolding xs by (rule Counter_map_inj[OF inj_value_value])
  also have "\<dots> = image_mset (multiplicity cs) (mset (remdups ?V))"
    by (simp only: cnt rd count_list_card_value)
  also have "\<dots> = mset (map (multiplicity cs) (remdups ?V))"
    by (simp only: mset_map)
  finally have "sort (map snd (Counter ?xs)) = sort (map (multiplicity cs) (remdups ?V))"
    by (metis sorted_list_of_multiset_mset)
  then show ?thesis
    by (simp only: vals_def groups_def Hand_init_fields)
qed


lemma groups_seven_cards:
  "groups [\<lparr>card_value = THREE, card_suit = SPADES\<rparr>,
     \<lparr>card_value = THREE, card_suit = CLUBS\<rparr>,
     \<lparr>card_value = THREE, card_suit = DIAMONDS\<rparr>,
     \<lparr>card_value = SEVEN, card_suit = HEARTS\<rparr>,
     \<lparr>card_value = SEVEN, card_suit = SPADES\<rparr>,
     \<lparr>card_value = NINE, card_suit = CLUBS\<rparr>,
     \<lparr>card_value = NINE, card_suit = DIAMONDS\<rparr>] = [3, 2, 2]"
  by (simp add: groups_def multiplicity_def)

text \<open>
  C4. For a non-empty hand, \<open>is_straight\<close> returns true exactly when the value set
  under one of the two readings of the ace (as 1, or as 14) has largest minus smallest
  value equal to the hand size minus one and as many distinct values as the hand has
  cards. A, 2, 3, 4, 5 and 10, J, Q, K, A are straights whatever their suits, and the two
  hands of the specification rank as straight.
\<close>

theorem is_straight_iff:
  assumes "cs \<noteq> []"
  shows "is_straight (Hand_init cs) = Inr (straight_spec cs) \<and>
    is_straight (Hand_init
    [\<lparr>card_value = ACE, card_suit = s1\<rparr>,
     \<lparr>card_value = TWO, card_suit = s2\<rparr>,
     \<lparr>card_value = THREE, card_suit = s3\<rparr>,
     \<lparr>card_value = FOUR, card_suit = s4\<rparr>,
     \<lparr>card_value = FIVE, card_suit = s5\<rparr>]) = Inr True \<and>
    is_straight (Hand_init
    [\<lparr>card_value = TEN, card_suit = s1\<rparr>,
     \<lparr>card_value = JACK, card_suit = s2\<rparr>,
     \<lparr>card_value = QUEEN, card_suit = s3\<rparr>,
     \<lparr>card_value = KING, card_suit = s4\<rparr>,
     \<lparr>card_value = ACE, card_suit = s5\<rparr>]) = Inr True \<and>
    rank (Hand_init
    [\<lparr>card_value = ACE, card_suit = SPADES\<rparr>,
     \<lparr>card_value = TWO, card_suit = CLUBS\<rparr>,
     \<lparr>card_value = THREE, card_suit = DIAMONDS\<rparr>,
     \<lparr>card_value = FOUR, card_suit = HEARTS\<rparr>,
     \<lparr>card_value = FIVE, card_suit = SPADES\<rparr>]) = Inr STRAIGHT \<and>
    rank (Hand_init
    [\<lparr>card_value = TEN, card_suit = SPADES\<rparr>,
     \<lparr>card_value = JACK, card_suit = CLUBS\<rparr>,
     \<lparr>card_value = QUEEN, card_suit = DIAMONDS\<rparr>,
     \<lparr>card_value = KING, card_suit = HEARTS\<rparr>,
     \<lparr>card_value = ACE, card_suit = SPADES\<rparr>]) = Inr STRAIGHT"
  using is_straight_spec[OF assms] wheel broadway wheel_rank broadway_rank by blast

theorem is_straight_iff_witness:
  "[\<lparr>card_value = ACE, card_suit = SPADES\<rparr>,
     \<lparr>card_value = TWO, card_suit = CLUBS\<rparr>,
     \<lparr>card_value = THREE, card_suit = DIAMONDS\<rparr>,
     \<lparr>card_value = FOUR, card_suit = HEARTS\<rparr>,
     \<lparr>card_value = FIVE, card_suit = SPADES\<rparr>] \<noteq> [] \<and>
   is_straight (Hand_init
    [\<lparr>card_value = ACE, card_suit = SPADES\<rparr>,
     \<lparr>card_value = TWO, card_suit = CLUBS\<rparr>,
     \<lparr>card_value = THREE, card_suit = DIAMONDS\<rparr>,
     \<lparr>card_value = FOUR, card_suit = HEARTS\<rparr>,
     \<lparr>card_value = FIVE, card_suit = SPADES\<rparr>]) = Inr (straight_spec
    [\<lparr>card_value = ACE, card_suit = SPADES\<rparr>,
     \<lparr>card_value = TWO, card_suit = CLUBS\<rparr>,
     \<lparr>card_value = THREE, card_suit = DIAMONDS\<rparr>,
     \<lparr>card_value = FOUR, card_suit = HEARTS\<rparr>,
     \<lparr>card_value = FIVE, card_suit = SPADES\<rparr>]) \<and>
   is_straight (Hand_init
    [\<lparr>card_value = ACE, card_suit = SPADES\<rparr>,
     \<lparr>card_value = TWO, card_suit = CLUBS\<rparr>,
     \<lparr>card_value = THREE, card_suit = DIAMONDS\<rparr>,
     \<lparr>card_value = FOUR, card_suit = HEARTS\<rparr>,
     \<lparr>card_value = FIVE, card_suit = SPADES\<rparr>]) = Inr True"
proof -
  have ne: "[\<lparr>card_value = ACE, card_suit = SPADES\<rparr>,
     \<lparr>card_value = TWO, card_suit = CLUBS\<rparr>,
     \<lparr>card_value = THREE, card_suit = DIAMONDS\<rparr>,
     \<lparr>card_value = FOUR, card_suit = HEARTS\<rparr>,
     \<lparr>card_value = FIVE, card_suit = SPADES\<rparr>] \<noteq> []"
    by simp
  from is_straight_iff [OF ne, of SPADES CLUBS DIAMONDS HEARTS SPADES] ne show ?thesis
    by blast
qed

text \<open>
  C5. For a non-empty hand no check raises, and \<open>rank\<close> returns the category of the
  first check that holds, in the order straight flush, four of a kind, full house,
  flush, straight, three of a kind, two pair, pair; high card when none holds.
\<close>

theorem rank_first_match:
  assumes "cs \<noteq> []"
  shows "rank (Hand_init cs) = Inr
      (if is_straight_flush (Hand_init cs) = Inr True then STRAIGHT_FLUSH
       else if is_four_of_a_kind (Hand_init cs) = Inr True then FOUR_OF_A_KIND
       else if is_full_house (Hand_init cs) then FULL_HOUSE
       else if is_flush (Hand_init cs) then FLUSH
       else if is_straight (Hand_init cs) = Inr True then STRAIGHT
       else if is_three_of_a_kind (Hand_init cs) = Inr True then THREE_OF_A_KIND
       else if is_two_pair (Hand_init cs) then TWO_PAIR
       else if is_one_pair (Hand_init cs) = Inr True then PAIR
       else HIGH_CARD)"
proof -
  let ?h = "Hand_init cs"
  obtain v vs where v: "vals ?h = v # vs"
    using vals_nonempty[OF assms] by (cases "vals ?h") auto
  have st: "is_straight ?h = Inr (straight_spec cs)"
    using assms by (rule is_straight_spec)
  have sf: "is_straight_flush ?h = Inr (is_flush ?h \<and> straight_spec cs)"
    by (simp add: is_straight_flush_def st)
  have fk: "is_four_of_a_kind ?h = Inr (v = 4)"
    and tk: "is_three_of_a_kind ?h = Inr (v = 3)"
    and op: "is_one_pair ?h = Inr (v = 2)"
    by (simp_all add: is_four_of_a_kind_def is_three_of_a_kind_def is_one_pair_def v)
  show ?thesis
    unfolding rank_def sf fk tk op st bind_err_def by simp
qed

theorem rank_first_match_witness:
  "[\<lparr>card_value = TWO, card_suit = SPADES\<rparr>, \<lparr>card_value = TWO, card_suit = CLUBS\<rparr>] \<noteq> [] \<and>
   rank (Hand_init [\<lparr>card_value = TWO, card_suit = SPADES\<rparr>, \<lparr>card_value = TWO, card_suit = CLUBS\<rparr>]) = Inr PAIR"
proof -
  have ne: "[\<lparr>card_value = TWO, card_suit = SPADES\<rparr>, \<lparr>card_value = TWO, card_suit = CLUBS\<rparr>] \<noteq> []"
    by simp
  have "is_straight_flush (Hand_init [\<lparr>card_value = TWO, card_suit = SPADES\<rparr>, \<lparr>card_value = TWO, card_suit = CLUBS\<rparr>]) = Inr False"
    "is_four_of_a_kind (Hand_init [\<lparr>card_value = TWO, card_suit = SPADES\<rparr>, \<lparr>card_value = TWO, card_suit = CLUBS\<rparr>]) = Inr False"
    "\<not> is_full_house (Hand_init [\<lparr>card_value = TWO, card_suit = SPADES\<rparr>, \<lparr>card_value = TWO, card_suit = CLUBS\<rparr>])"
    "\<not> is_flush (Hand_init [\<lparr>card_value = TWO, card_suit = SPADES\<rparr>, \<lparr>card_value = TWO, card_suit = CLUBS\<rparr>])"
    "is_straight (Hand_init [\<lparr>card_value = TWO, card_suit = SPADES\<rparr>, \<lparr>card_value = TWO, card_suit = CLUBS\<rparr>]) = Inr False"
    "is_three_of_a_kind (Hand_init [\<lparr>card_value = TWO, card_suit = SPADES\<rparr>, \<lparr>card_value = TWO, card_suit = CLUBS\<rparr>]) = Inr False"
    "\<not> is_two_pair (Hand_init [\<lparr>card_value = TWO, card_suit = SPADES\<rparr>, \<lparr>card_value = TWO, card_suit = CLUBS\<rparr>])"
    "is_one_pair (Hand_init [\<lparr>card_value = TWO, card_suit = SPADES\<rparr>, \<lparr>card_value = TWO, card_suit = CLUBS\<rparr>]) = Inr True"
    by (simp_all add: rank_eval)
  with rank_first_match [OF ne] ne show ?thesis
    by simp
qed

text \<open>
  C6. With \<open>groups\<close> the numbers of cards of each value that occurs in the hand, the
  largest first: four of a kind means the largest group is 4, full house that the two
  largest groups are 3 and 2, three of a kind that the largest is 3, two pair that the
  two largest are 2 and 2, pair that the largest is 2; for a non-empty hand of any
  size.
\<close>

theorem groups_checks:
  assumes "cs \<noteq> []"
  shows "is_four_of_a_kind (Hand_init cs) = Inr (hd (groups cs) = 4) \<and>
    is_full_house (Hand_init cs) = (take 2 (groups cs) = [3, 2]) \<and>
    is_three_of_a_kind (Hand_init cs) = Inr (hd (groups cs) = 3) \<and>
    is_two_pair (Hand_init cs) = (take 2 (groups cs) = [2, 2]) \<and>
    is_one_pair (Hand_init cs) = Inr (hd (groups cs) = 2)"
proof -
  obtain v vs where v: "groups cs = v # vs"
    using vals_nonempty[OF assms] by (cases "groups cs") (auto simp: vals_groups)
  then have "vals (Hand_init cs) = v # vs" by (simp add: vals_groups)
  then show ?thesis
    by (simp add: is_four_of_a_kind_def is_full_house_def is_three_of_a_kind_def
        is_two_pair_def is_one_pair_def v)
qed

theorem groups_checks_witness:
  "[\<lparr>card_value = THREE, card_suit = SPADES\<rparr>,
     \<lparr>card_value = THREE, card_suit = CLUBS\<rparr>,
     \<lparr>card_value = THREE, card_suit = DIAMONDS\<rparr>,
     \<lparr>card_value = SEVEN, card_suit = HEARTS\<rparr>,
     \<lparr>card_value = SEVEN, card_suit = SPADES\<rparr>,
     \<lparr>card_value = NINE, card_suit = CLUBS\<rparr>,
     \<lparr>card_value = NINE, card_suit = DIAMONDS\<rparr>] \<noteq> [] \<and>
   groups [\<lparr>card_value = THREE, card_suit = SPADES\<rparr>,
     \<lparr>card_value = THREE, card_suit = CLUBS\<rparr>,
     \<lparr>card_value = THREE, card_suit = DIAMONDS\<rparr>,
     \<lparr>card_value = SEVEN, card_suit = HEARTS\<rparr>,
     \<lparr>card_value = SEVEN, card_suit = SPADES\<rparr>,
     \<lparr>card_value = NINE, card_suit = CLUBS\<rparr>,
     \<lparr>card_value = NINE, card_suit = DIAMONDS\<rparr>] = [3, 2, 2] \<and>
   is_full_house (Hand_init [\<lparr>card_value = THREE, card_suit = SPADES\<rparr>,
     \<lparr>card_value = THREE, card_suit = CLUBS\<rparr>,
     \<lparr>card_value = THREE, card_suit = DIAMONDS\<rparr>,
     \<lparr>card_value = SEVEN, card_suit = HEARTS\<rparr>,
     \<lparr>card_value = SEVEN, card_suit = SPADES\<rparr>,
     \<lparr>card_value = NINE, card_suit = CLUBS\<rparr>,
     \<lparr>card_value = NINE, card_suit = DIAMONDS\<rparr>]) \<and>
   is_three_of_a_kind (Hand_init [\<lparr>card_value = THREE, card_suit = SPADES\<rparr>,
     \<lparr>card_value = THREE, card_suit = CLUBS\<rparr>,
     \<lparr>card_value = THREE, card_suit = DIAMONDS\<rparr>,
     \<lparr>card_value = SEVEN, card_suit = HEARTS\<rparr>,
     \<lparr>card_value = SEVEN, card_suit = SPADES\<rparr>,
     \<lparr>card_value = NINE, card_suit = CLUBS\<rparr>,
     \<lparr>card_value = NINE, card_suit = DIAMONDS\<rparr>]) = Inr True \<and>
   is_one_pair (Hand_init [\<lparr>card_value = THREE, card_suit = SPADES\<rparr>,
     \<lparr>card_value = THREE, card_suit = CLUBS\<rparr>,
     \<lparr>card_value = THREE, card_suit = DIAMONDS\<rparr>,
     \<lparr>card_value = SEVEN, card_suit = HEARTS\<rparr>,
     \<lparr>card_value = SEVEN, card_suit = SPADES\<rparr>,
     \<lparr>card_value = NINE, card_suit = CLUBS\<rparr>,
     \<lparr>card_value = NINE, card_suit = DIAMONDS\<rparr>]) = Inr False"
proof -
  have ne: "[\<lparr>card_value = THREE, card_suit = SPADES\<rparr>,
     \<lparr>card_value = THREE, card_suit = CLUBS\<rparr>,
     \<lparr>card_value = THREE, card_suit = DIAMONDS\<rparr>,
     \<lparr>card_value = SEVEN, card_suit = HEARTS\<rparr>,
     \<lparr>card_value = SEVEN, card_suit = SPADES\<rparr>,
     \<lparr>card_value = NINE, card_suit = CLUBS\<rparr>,
     \<lparr>card_value = NINE, card_suit = DIAMONDS\<rparr>] \<noteq> []"
    by simp
  from groups_checks [OF ne] ne show ?thesis
    by (simp add: groups_seven_cards)
qed

end
